theory Spec2Isabelle
  imports Complex_Main
begin

section \<open>Carousel geometry: \<^verbatim>\<open>extensions/amp-base-carousel/0.1/dimensions.js\<close>\<close>

text \<open>
  JavaScript numbers are modelled as reals. The theorems of this section compare the
  arithmetic expressions of the code with the same expressions of the claims; the only
  laws of the order they use are that \<open>\<le>\<close> is reflexive and \<open><\<close> irreflexive.
\<close>

subsection \<open>Data\<close>

text \<open>\<^verbatim>\<open>Axis = {X: 0, Y: 1}\<close> and \<^verbatim>\<open>Alignment = {START: 'start', CENTER: 'center'}\<close>.\<close>

datatype Axis = X | Y

datatype Alignment = START | CENTER

text \<open>\<^verbatim>\<open>DimensionDef\<close>: the fields \<^verbatim>\<open>start\<close>, \<^verbatim>\<open>end\<close>, \<^verbatim>\<open>length\<close>.\<close>

record DimensionDef =
  start :: real
  end' :: real
  length' :: real

text \<open>
  What \<^verbatim>\<open>el.getBoundingClientRect()\<close> returns, with the six fields that
  \<^verbatim>\<open>getDimension\<close> destructures.
\<close>

record DOMRect =
  bottom :: real
  height :: real
  left :: real
  right :: real
  top' :: real
  width :: real

text \<open>
  An element, as far as this module reads and writes it: its bounding rectangle, its two
  scroll offsets, and its inline style (property name to value and \<^verbatim>\<open>important\<close> flag).
  An assignment to \<^verbatim>\<open>scrollLeft\<close> or \<^verbatim>\<open>scrollTop\<close> stores the value assigned.
\<close>

record Element =
  boundingClientRect :: DOMRect
  scrollLeft :: real
  scrollTop :: real
  style :: "string \<rightharpoonup> string \<times> bool"

subsection \<open>Measurement\<close>

definition getDimension :: "Axis \<Rightarrow> Element \<Rightarrow> DimensionDef" where
  "getDimension axis el =
     (let r = boundingClientRect el in
      \<lparr> start = (if axis = X then left r else top' r),
        end' = (if axis = X then right r else bottom r),
        length' = (if axis = X then width r else height r) \<rparr>)"

definition getCenter :: "Axis \<Rightarrow> Element \<Rightarrow> real" where
  "getCenter axis el =
     (let d = getDimension axis el in (start d + end' d) / 2)"

definition getStart :: "Axis \<Rightarrow> Element \<Rightarrow> real" where
  "getStart axis el = (let d = getDimension axis el in start d)"

definition getPosition :: "Axis \<Rightarrow> Alignment \<Rightarrow> Element \<Rightarrow> real" where
  "getPosition axis alignment el =
     (if alignment = START then getStart axis el else getCenter axis el)"

definition overlaps :: "Axis \<Rightarrow> Element \<Rightarrow> real \<Rightarrow> bool" where
  "overlaps axis el position =
     (let d = getDimension axis el in start d \<le> position \<and> position < end' d)"

definition getPercentageOffsetFromAlignment ::
    "Axis \<Rightarrow> Alignment \<Rightarrow> Element \<Rightarrow> Element \<Rightarrow> real" where
  "getPercentageOffsetFromAlignment axis alignment container el =
     (let elPos = getPosition axis alignment el;
          containerPos = getPosition axis alignment container;
          elLength = length' (getDimension axis el)
      in (elPos - containerPos) / elLength)"

subsection \<open>Styles\<close>

text \<open>
  Modelled from the spec: \<^verbatim>\<open>setStyle\<close> of \<^verbatim>\<open>src/core/dom/style\<close> is not among the
  sources; it is the "CSS style mutation" of the spec: the property of the element's
  inline style is assigned the value.
\<close>

definition setStyle :: "Element \<Rightarrow> string \<Rightarrow> string \<Rightarrow> Element" where
  "setStyle el property v = el\<lparr>style := (style el)(property \<mapsto> (v, False))\<rparr>"

text \<open>
  Modelled from the spec: \<^verbatim>\<open>setImportantStyles\<close> of \<^verbatim>\<open>src/core/dom/style\<close> is not
  among the sources; it is the "CSS style mutation" of the spec: each listed property is
  assigned its value, with priority \<^verbatim>\<open>important\<close>, in the order listed.
\<close>

fun setImportantStyles :: "Element \<Rightarrow> (string \<times> string) list \<Rightarrow> Element" where
  "setImportantStyles el [] = el"
| "setImportantStyles el ((property, v) # styles) =
     setImportantStyles (el\<lparr>style := (style el)(property \<mapsto> (v, True))\<rparr>) styles"

text \<open>
  The template literal \<^verbatim>\<open>`translate(${deltaX}px, ${deltaY}px)`\<close>. The conversion of a
  number to its string is the language's; it is the parameter \<open>numstr\<close>.
\<close>

definition translate :: "(real \<Rightarrow> string) \<Rightarrow> real \<Rightarrow> real \<Rightarrow> string" where
  "translate numstr deltaX deltaY =
     ''translate('' @ numstr deltaX @ ''px, '' @ numstr deltaY @ ''px)''"

definition setTransformTranslateStyle ::
    "(real \<Rightarrow> string) \<Rightarrow> Axis \<Rightarrow> Element \<Rightarrow> real \<Rightarrow> Element" where
  "setTransformTranslateStyle numstr axis el delta =
     (let deltaX = (if axis = X then delta else 0);
          deltaY = (if axis = X then 0 else delta);
          el1 = setStyle el ''transform'' (translate numstr deltaX deltaY)
      in setImportantStyles el1
           [(''--content-transform'', translate numstr deltaX deltaY)])"

subsection \<open>Scrolling\<close>

definition getScrollPosition :: "Axis \<Rightarrow> Element \<Rightarrow> real" where
  "getScrollPosition axis el = (if axis = X then scrollLeft el else scrollTop el)"

definition setScrollPosition :: "Axis \<Rightarrow> Element \<Rightarrow> real \<Rightarrow> Element" where
  "setScrollPosition axis el position =
     (if axis = X then el\<lparr>scrollLeft := position\<rparr> else el\<lparr>scrollTop := position\<rparr>)"

definition updateScrollPosition :: "Axis \<Rightarrow> Element \<Rightarrow> real \<Rightarrow> Element" where
  "updateScrollPosition axis el delta =
     setScrollPosition axis el (getScrollPosition axis el + delta)"

text \<open>
  \<^verbatim>\<open>scrollContainerToElement(axis, alignment, container, el, offset = 0)\<close>: the last
  argument is optional, \<open>None\<close> when the caller leaves it out. The result is the
  container after the scroll.
\<close>

definition scrollContainerToElement ::
    "Axis \<Rightarrow> Alignment \<Rightarrow> Element \<Rightarrow> Element \<Rightarrow> real option \<Rightarrow> Element" where
  "scrollContainerToElement axis alignment container el offset_arg =
     (let offset = (case offset_arg of None \<Rightarrow> 0 | Some v \<Rightarrow> v);
          startAligned = (alignment = START);
          length = length' (getDimension axis el);
          snapOffset = (if startAligned then getStart axis el else getCenter axis el);
          scrollOffset =
            (if startAligned then getStart axis container else getCenter axis container);
          delta = snapOffset - scrollOffset - offset * length
      in updateScrollPosition axis container delta)"

subsection \<open>The transposed element\<close>

text \<open>
  The element with the coordinates swapped: \<^verbatim>\<open>top\<close> for \<^verbatim>\<open>left\<close>, \<^verbatim>\<open>bottom\<close> for
  \<^verbatim>\<open>right\<close>, \<^verbatim>\<open>height\<close> for \<^verbatim>\<open>width\<close>, and back. It is the device of the symmetry
  statement, not a function of the module.
\<close>

definition transposeRect :: "DOMRect \<Rightarrow> DOMRect" where
  "transposeRect r =
     \<lparr> bottom = right r, height = width r, left = top' r,
       right = bottom r, top' = left r, width = height r \<rparr>"

definition transposed :: "Element \<Rightarrow> Element" where
  "transposed el = el\<lparr>boundingClientRect := transposeRect (boundingClientRect el)\<rparr>"

text \<open>The other axis.\<close>

fun swapAxis :: "Axis \<Rightarrow> Axis" where
  "swapAxis X = Y"
| "swapAxis Y = X"

subsection \<open>Finding the child under the alignment point\<close>

text \<open>
  The errors a call can raise: a \<^verbatim>\<open>TypeError\<close> of the language, and the user error of
  \<^verbatim>\<open>userAssert\<close> with its message and argument.
\<close>

datatype error = TypeError | UserError string "string option"

text \<open>
  Modelled from the spec: \<^verbatim>\<open>mod\<close> of \<^verbatim>\<open>src/core/math\<close> is not among the sources. It
  is the remainder that keeps an index on the circle of the children: for \<open>0 < b\<close> the
  value \<open>r\<close> with \<open>0 \<le> r < b\<close> that differs from \<open>a\<close> by a multiple of \<open>b\<close>.
\<close>

definition mod' :: "int \<Rightarrow> int \<Rightarrow> int" where
  "mod' a b = a mod b"

text \<open>
  \<^verbatim>\<open>children[k]\<close>: \<^verbatim>\<open>undefined\<close> (here \<open>None\<close>) outside the array. Indices are
  integers.
\<close>

definition child_at :: "Element list \<Rightarrow> int \<Rightarrow> Element option" where
  "child_at children k =
     (if 0 \<le> k \<and> k < int (length children) then Some (children ! nat k) else None)"

text \<open>
  \<^verbatim>\<open>overlaps(axis, children[k], pos)\<close>: on \<^verbatim>\<open>undefined\<close> the call
  \<^verbatim>\<open>el.getBoundingClientRect()\<close> of \<^verbatim>\<open>getDimension\<close> raises a \<^verbatim>\<open>TypeError\<close>.
\<close>

definition overlaps_child :: "Axis \<Rightarrow> Element list \<Rightarrow> int \<Rightarrow> real \<Rightarrow> error + bool" where
  "overlaps_child axis children k pos =
     (case child_at children k of
        None \<Rightarrow> Inl TypeError
      | Some el \<Rightarrow> Inr (overlaps axis el pos))"

text \<open>
  The loop \<^verbatim>\<open>for (let i = 1; i <= children.length / 2; i++)\<close>, entered at \<open>i\<close>. The
  division is the division of numbers, not of integers. \<open>None\<close> is \<^verbatim>\<open>undefined\<close>, the
  value of a call that falls off the end of the function.
\<close>

function findOverlappingIndex_loop ::
    "Axis \<Rightarrow> Element list \<Rightarrow> int \<Rightarrow> real \<Rightarrow> int \<Rightarrow> error + int option" where
  "findOverlappingIndex_loop axis children startIndex pos i =
     (if real_of_int i \<le> real (length children) / 2 then
        (let nextIndex = mod' (startIndex + i) (int (length children));
             prevIndex = mod' (startIndex - i) (int (length children))
         in case overlaps_child axis children nextIndex pos of
              Inl e \<Rightarrow> Inl e
            | Inr next_overlaps \<Rightarrow>
                if next_overlaps then Inr (Some nextIndex)
                else (case overlaps_child axis children prevIndex pos of
                        Inl e \<Rightarrow> Inl e
                      | Inr prev_overlaps \<Rightarrow>
                          if prev_overlaps then Inr (Some prevIndex)
                          else findOverlappingIndex_loop axis children startIndex pos (i + 1)))
      else Inr None)"
  by pat_completeness auto
termination
  by (relation "measure (\<lambda>(axis, children, startIndex, pos, i).
        nat (int (length children) + 1 - i))") auto

declare findOverlappingIndex_loop.simps [simp del]

definition findOverlappingIndex ::
    "Axis \<Rightarrow> Alignment \<Rightarrow> Element \<Rightarrow> Element list \<Rightarrow> int \<Rightarrow> error + int option" where
  "findOverlappingIndex axis alignment container children startIndex =
     (let pos = getPosition axis alignment container
      in case overlaps_child axis children startIndex pos of
           Inl e \<Rightarrow> Inl e
         | Inr start_overlaps \<Rightarrow>
             if start_overlaps then Inr (Some startIndex)
             else findOverlappingIndex_loop axis children startIndex pos 1)"

text \<open>
  The circular distance between two indices of an array of \<open>n\<close> entries: the fewer of
  the steps forward and the steps backward from one to the other. It is the measure of
  the statement on the search order, not a function of the module.
\<close>

definition circular_distance :: "int \<Rightarrow> int \<Rightarrow> int \<Rightarrow> int" where
  "circular_distance n a b = min ((b - a) mod n) ((a - b) mod n)"

subsection \<open>Elements of the worked examples\<close>

text \<open>
  The element whose bounding rectangle has the given left, top, width and height, not
  scrolled and with no inline style.
\<close>

definition box :: "real \<Rightarrow> real \<Rightarrow> real \<Rightarrow> real \<Rightarrow> Element" where
  "box l t w h =
     \<lparr> boundingClientRect =
         \<lparr> bottom = t + h, height = h, left = l, right = l + w, top' = t, width = w \<rparr>,
       scrollLeft = 0, scrollTop = 0, style = Map.empty \<rparr>"

text \<open>
  Four children along X, the second and the fourth over the same stretch from 20 to 30,
  and a container whose start is at 25.
\<close>

definition exampleChildren :: "Element list" where
  "exampleChildren = [box 0 0 10 10, box 20 0 10 10, box 50 0 10 10, box 20 0 10 10]"

definition exampleContainer :: Element where
  "exampleContainer = box 25 0 100 10"

section \<open>The embed component: \<^verbatim>\<open>extensions/amp-facebook/0.1/amp-facebook.js\<close>\<close>

text \<open>
  A name of the source that ends in an underscore (a private member) ends in \<open>_p\<close>
  here.
\<close>

subsection \<open>Values of the language\<close>

datatype jsnum = NaN | PosInfinity | NegInfinity | Finite real

text \<open>
  The values a message can carry: the primitives, arrays, and plain objects as lists of
  properties (the first entry of a name is the property).
\<close>

datatype jsval =
    JUndefined
  | JNull
  | JBool bool
  | JNum jsnum
  | JStr string
  | JArr "jsval list"
  | JObj "(string \<times> jsval) list"

text \<open>\<^verbatim>\<open>!v\<close>: the values that count as false.\<close>

fun falsy :: "jsval \<Rightarrow> bool" where
  "falsy JUndefined = True"
| "falsy JNull = True"
| "falsy (JBool b) = (\<not> b)"
| "falsy (JNum x) = (x = NaN \<or> x = Finite 0)"
| "falsy (JStr s) = (s = [])"
| "falsy (JArr vs) = False"
| "falsy (JObj ps) = False"

text \<open>
  \<^verbatim>\<open>v[name]\<close>, for a name that is no index, not \<^verbatim>\<open>length\<close> and not inherited from a
  prototype, as \<^verbatim>\<open>'action'\<close> and \<^verbatim>\<open>'height'\<close> are: the property of an object,
  \<^verbatim>\<open>undefined\<close> on an object without it and on a string, number, boolean or array, and
  a \<^verbatim>\<open>TypeError\<close> on \<^verbatim>\<open>null\<close> and \<^verbatim>\<open>undefined\<close>.
\<close>

fun getProp :: "jsval \<Rightarrow> string \<Rightarrow> error + jsval" where
  "getProp JUndefined name = Inl TypeError"
| "getProp JNull name = Inl TypeError"
| "getProp (JObj ps) name =
     Inr (case map_of ps name of None \<Rightarrow> JUndefined | Some v \<Rightarrow> v)"
| "getProp v name = Inr JUndefined"

subsection \<open>The host\<close>

text \<open>
  A window is known by a number. An iframe and the component's element carry the fields
  that the component reads and writes; \<^verbatim>\<open>contentWindow\<close> is \<^verbatim>\<open>null\<close>, here \<open>None\<close>,
  on an iframe without a window, and so is the \<^verbatim>\<open>source\<close> of an event without one.
\<close>

type_synonym window = nat

record Iframe =
  iframe_title :: string
  iframe_attributes :: "(string \<times> string) list"
  contentWindow :: "window option"

record AmpElement =
  attributes :: "(string \<times> string) list"
  title :: string
  childNodes :: "Iframe list"

text \<open>
  What the component takes from its host and from the language: the test flag of
  \<^verbatim>\<open>getMode()\<close>; \<^verbatim>\<open>JSON.parse\<close> (\<open>None\<close> when it throws); the conversion of an
  object or array to a primitive that \<^verbatim>\<open>==\<close> applies (\<open>None\<close> when it throws); the
  iframe that \<^verbatim>\<open>getIframe(win, element, type)\<close> of \<^verbatim>\<open>src/3p-frame\<close> creates; and
  \<^verbatim>\<open>dashToUnderline(window.navigator.language)\<close>.
\<close>

record Host =
  test :: bool
  parseJson :: "jsval \<Rightarrow> jsval option"
  toPrimitive :: "jsval \<Rightarrow> jsval option"
  getIframe :: "AmpElement \<Rightarrow> string \<Rightarrow> Iframe"
  navigatorLocale :: string

text \<open>
  The calls the component makes on its base class and on the framework's helpers, with
  their arguments; an iframe argument is the iframe as it is at the call.
\<close>

datatype HostCall =
    ApplyFillContent Iframe
  | ListenFor Iframe string bool
  | Listen string
  | ToggleLoading bool
  | ForceChangeHeight jsval
  | LoadPromise Iframe

text \<open>The function that \<^verbatim>\<open>listen(win, type, handler)\<close> returns, which removes the listener.\<close>

datatype Unlisten = Unlisten string

record MessageEvent =
  source :: "window option"
  data :: jsval

subsection \<open>The component\<close>

record AmpFacebook =
  element :: AmpElement
  iframe_p :: "Iframe option"
  dataLocale_p :: string
  unlistenMessage_p :: "Unlisten option"
  toggleLoadingCounter_p :: nat
  hostCalls :: "HostCall list"

definition TYPE' :: string where
  "TYPE' = ''facebook''"

definition getAttribute :: "(string \<times> string) list \<Rightarrow> string \<Rightarrow> string option" where
  "getAttribute attrs name = map_of attrs name"

definition hasAttribute :: "(string \<times> string) list \<Rightarrow> string \<Rightarrow> bool" where
  "hasAttribute attrs name = (map_of attrs name \<noteq> None)"

definition setAttribute ::
    "(string \<times> string) list \<Rightarrow> string \<Rightarrow> string \<Rightarrow> (string \<times> string) list" where
  "setAttribute attrs name v = (name, v) # filter (\<lambda>p. fst p \<noteq> name) attrs"

text \<open>The constructor: \<^verbatim>\<open>new AmpFacebook(element)\<close>.\<close>

definition constructor :: "Host \<Rightarrow> AmpElement \<Rightarrow> AmpFacebook" where
  "constructor host el =
     \<lparr> element = el,
       iframe_p = None,
       dataLocale_p =
         (case getAttribute (attributes el) ''data-locale'' of
            Some locale \<Rightarrow> locale
          | None \<Rightarrow> navigatorLocale host),
       unlistenMessage_p = None,
       toggleLoadingCounter_p = 0,
       hostCalls = [] \<rparr>"

text \<open>
  Modelled from the spec: \<^verbatim>\<open>userAssert\<close> of \<^verbatim>\<open>src/log\<close> is not among the sources. It is
  the "attribute validation (rejecting unsupported embed-type values)" of the spec: when
  the condition is false the call raises a user error with the message and its argument.
\<close>

definition userAssert :: "bool \<Rightarrow> string \<Rightarrow> string option \<Rightarrow> error + unit" where
  "userAssert shouldBeTrueish message arg =
     (if shouldBeTrueish then Inr () else Inl (UserError message arg))"

text \<open>
  The base class \<^verbatim>\<open>AMP.BaseElement\<close> and the helpers \<^verbatim>\<open>listen\<close> and \<^verbatim>\<open>listenFor\<close> are
  the host framework's. A call of one of them is recorded with its arguments, after the
  calls before it, and not interpreted.
\<close>

definition call :: "AmpFacebook \<Rightarrow> HostCall \<Rightarrow> AmpFacebook" where
  "call st c = st\<lparr>hostCalls := hostCalls st @ [c]\<rparr>"

definition toggleLoading :: "AmpFacebook \<Rightarrow> bool \<Rightarrow> AmpFacebook" where
  "toggleLoading st state = call st (ToggleLoading state)"

definition forceChangeHeight :: "AmpFacebook \<Rightarrow> jsval \<Rightarrow> AmpFacebook" where
  "forceChangeHeight st newHeight = call st (ForceChangeHeight newHeight)"

text \<open>
  The listener that \<^verbatim>\<open>layoutCallback\<close> registers for \<^verbatim>\<open>embed-size\<close>:
  \<^verbatim>\<open>(data) => { this.forceChangeHeight(data['height']); }\<close>.
\<close>

definition embedSizeListener :: "AmpFacebook \<Rightarrow> jsval \<Rightarrow> error + AmpFacebook" where
  "embedSizeListener st d =
     (case getProp d ''height'' of
        Inl e \<Rightarrow> Inl e
      | Inr h \<Rightarrow> Inr (forceChangeHeight st h))"

definition embedAsMessage :: string where
  "embedAsMessage =
     ''Attribute data-embed-as for <amp-facebook> value is wrong, should be''
     @ '' \"post\", \"video\" or \"comment\" but was: %s''"

text \<open>
  \<^verbatim>\<open>layoutCallback()\<close>. An attribute that is absent reads as \<^verbatim>\<open>null\<close>, here \<open>None\<close>;
  \<^verbatim>\<open>!embedAs\<close> holds of \<^verbatim>\<open>null\<close> and of the empty string. The promise returned is the
  recorded call \<open>LoadPromise\<close>.
\<close>

definition layoutCallback :: "Host \<Rightarrow> AmpFacebook \<Rightarrow> error + AmpFacebook" where
  "layoutCallback host st =
     (let embedAs = getAttribute (attributes (element st)) ''data-embed-as'' in
      case userAssert
             ((embedAs = None \<or> embedAs = Some [])
              \<or> (case embedAs of
                    None \<Rightarrow> False
                  | Some v \<Rightarrow> v \<in> set [''post'', ''video'', ''comment'']))
             embedAsMessage embedAs of
        Inl e \<Rightarrow> Inl e
      | Inr u \<Rightarrow>
         (let iframe0 = getIframe host (element st) TYPE';
              iframe1 = iframe0\<lparr>iframe_title :=
                          (if title (element st) \<noteq> [] then title (element st)
                           else ''Facebook'')\<rparr>;
              st1 = call st (ApplyFillContent iframe1);
              iframe = (if hasAttribute (attributes (element st)) ''data-allowfullscreen''
                        then iframe1\<lparr>iframe_attributes :=
                               setAttribute (iframe_attributes iframe1)
                                 ''allowfullscreen'' ''true''\<rparr>
                        else iframe1);
              st2 = call st1 (ListenFor iframe ''embed-size'' True);
              st3 = (call st2 (Listen ''message''))
                      \<lparr>unlistenMessage_p := Some (Unlisten ''message'')\<rparr>;
              st4 = toggleLoading st3 True;
              st5 = (if test host
                     then st4\<lparr>toggleLoadingCounter_p := toggleLoadingCounter_p st4 + 1\<rparr>
                     else st4);
              st6 = st5\<lparr>element :=
                      (element st5)\<lparr>childNodes := childNodes (element st5) @ [iframe]\<rparr>\<rparr>;
              st7 = st6\<lparr>iframe_p := Some iframe\<rparr>
          in Inr (call st7 (LoadPromise iframe))))"

text \<open>
  Modelled from the spec: \<^verbatim>\<open>listenFor\<close> of \<^verbatim>\<open>src/iframe-helper\<close> is not among the
  sources. It is the "\<^verbatim>\<open>embed-size\<close> message to resize the container" of the spec: a
  message of a type for which a listener was registered on an iframe, coming from the
  window of that iframe, is passed with its data to the listener; any other message is
  not. The only listener the component registers is \<open>embedSizeListener\<close>.
\<close>

definition receiveIframeMessage ::
    "AmpFacebook \<Rightarrow> window \<Rightarrow> string \<Rightarrow> jsval \<Rightarrow> error + AmpFacebook" where
  "receiveIframeMessage st w typeOfMessage d =
     (if list_ex (\<lambda>c. case c of
                         ListenFor ifr t is3p \<Rightarrow>
                           contentWindow ifr = Some w \<and> t = typeOfMessage
                       | _ \<Rightarrow> False) (hostCalls st)
      then embedSizeListener st d
      else Inr st)"

text \<open>
  Modelled from the spec: \<^verbatim>\<open>getData\<close> of \<^verbatim>\<open>src/event-helper\<close> is not among the
  sources. It reads the data of an "incoming message" of the spec: the \<^verbatim>\<open>data\<close> of the
  event.
\<close>

definition getData :: "MessageEvent \<Rightarrow> jsval" where
  "getData event = data event"

text \<open>
  Modelled from the spec: \<^verbatim>\<open>isObject\<close> of \<^verbatim>\<open>src/core/types\<close> is not among the
  sources. It is one of the "defensive null/parse checks on incoming messages" of the
  spec: whether the value is a plain object, which needs no parsing.
\<close>

fun isObject :: "jsval \<Rightarrow> bool" where
  "isObject (JObj ps) = True"
| "isObject v = False"

text \<open>
  Modelled from the spec: \<^verbatim>\<open>tryParseJson\<close> of \<^verbatim>\<open>src/core/types/object/json\<close> is not
  among the sources. It is the parse of the "defensive null/parse checks on incoming
  messages" of the spec: the value that \<^verbatim>\<open>JSON.parse\<close> gives, and \<^verbatim>\<open>undefined\<close> when
  \<^verbatim>\<open>JSON.parse\<close> throws.
\<close>

definition tryParseJson :: "Host \<Rightarrow> jsval \<Rightarrow> jsval" where
  "tryParseJson host json =
     (case parseJson host json of None \<Rightarrow> JUndefined | Some v \<Rightarrow> v)"

text \<open>
  \<^verbatim>\<open>v == 'ready'\<close>: a string equals it when it is the same string; \<^verbatim>\<open>undefined\<close>,
  \<^verbatim>\<open>null\<close>, a number and a boolean never do (\<^verbatim>\<open>'ready'\<close> converts to no number); an
  object or array is converted to a primitive first, which may raise a \<^verbatim>\<open>TypeError\<close>.
\<close>

fun primitiveEqualsReady :: "jsval \<Rightarrow> bool" where
  "primitiveEqualsReady (JStr s) = (s = ''ready'')"
| "primitiveEqualsReady v = False"

fun looseEqualsReady :: "Host \<Rightarrow> jsval \<Rightarrow> error + bool" where
  "looseEqualsReady host (JObj ps) =
     (case toPrimitive host (JObj ps) of
        None \<Rightarrow> Inl TypeError
      | Some p \<Rightarrow> Inr (primitiveEqualsReady p))"
| "looseEqualsReady host (JArr vs) =
     (case toPrimitive host (JArr vs) of
        None \<Rightarrow> Inl TypeError
      | Some p \<Rightarrow> Inr (primitiveEqualsReady p))"
| "looseEqualsReady host v = Inr (primitiveEqualsReady v)"

text \<open>
  The constant \<^verbatim>\<open>parsedEventData\<close> of \<^verbatim>\<open>handleFacebookMessages_\<close>:
  \<^verbatim>\<open>isObject(eventData) ? eventData : tryParseJson(eventData)\<close>.
\<close>

definition parsedEventData :: "Host \<Rightarrow> jsval \<Rightarrow> jsval" where
  "parsedEventData host eventData =
     (if isObject eventData then eventData else tryParseJson host eventData)"

text \<open>
  \<^verbatim>\<open>handleFacebookMessages_(event)\<close>. The test of the action reads \<^verbatim>\<open>eventData\<close>, as
  the source does, not \<^verbatim>\<open>parsedEventData\<close>.
\<close>

definition handleFacebookMessages_p ::
    "Host \<Rightarrow> AmpFacebook \<Rightarrow> MessageEvent \<Rightarrow> error + AmpFacebook" where
  "handleFacebookMessages_p host st event =
     (if (case iframe_p st of
            None \<Rightarrow> False
          | Some ifr \<Rightarrow> source event \<noteq> contentWindow ifr)
      then Inr st
      else
        (let eventData = getData event in
         if falsy eventData then Inr st
         else if falsy (parsedEventData host eventData) then Inr st
         else
           (case getProp eventData ''action'' of
              Inl e \<Rightarrow> Inl e
            | Inr action \<Rightarrow>
               (case looseEqualsReady host action of
                  Inl e \<Rightarrow> Inl e
                | Inr ready \<Rightarrow>
                    if ready then
                      (let st1 = toggleLoading st False in
                       Inr (if test host
                            then st1\<lparr>toggleLoadingCounter_p := toggleLoadingCounter_p st1 + 1\<rparr>
                            else st1))
                    else Inr st))))"

text \<open>
  The listener on the window's \<^verbatim>\<open>message\<close> events, run on the events of a list in
  order. An exception that the handler raises leaves the component as it was before the
  event, and the next event is delivered all the same.
\<close>

definition deliver :: "Host \<Rightarrow> AmpFacebook \<Rightarrow> MessageEvent \<Rightarrow> AmpFacebook" where
  "deliver host st event =
     (case handleFacebookMessages_p host st event of Inl e \<Rightarrow> st | Inr st' \<Rightarrow> st')"

fun dispatch :: "Host \<Rightarrow> AmpFacebook \<Rightarrow> MessageEvent list \<Rightarrow> AmpFacebook" where
  "dispatch host st [] = st"
| "dispatch host st (event # events) = dispatch host (deliver host st event) events"

subsection \<open>The component of the worked examples\<close>

text \<open>
  A host outside test mode whose \<^verbatim>\<open>JSON.parse\<close> knows one text, the encoding of
  \<^verbatim>\<open>{action: 'ready'}\<close>, whose conversion to a primitive gives the text of a plain
  object (the examples convert no array), and whose iframes have the window \<open>7\<close>;
  and an element with the given attributes.
\<close>

definition readyJson :: string where
  "readyJson = ''{\"action\":\"ready\"}''"

definition exampleHost :: Host where
  "exampleHost =
     \<lparr> test = False,
       parseJson = (\<lambda>v. if v = JStr readyJson
                         then Some (JObj [(''action'', JStr ''ready'')]) else None),
       toPrimitive = (\<lambda>v. Some (JStr ''[object Object]'')),
       getIframe = (\<lambda>el t. \<lparr> iframe_title = [], iframe_attributes = [(''name'', t)],
                              contentWindow = Some 7 \<rparr>),
       navigatorLocale = ''en_US'' \<rparr>"

definition exampleElement :: "(string \<times> string) list \<Rightarrow> AmpElement" where
  "exampleElement attrs = \<lparr> attributes = attrs, title = [], childNodes = [] \<rparr>"

definition exampleIframe :: Iframe where
  "exampleIframe =
     \<lparr> iframe_title = ''Facebook'', iframe_attributes = [(''name'', ''facebook'')],
       contentWindow = Some 7 \<rparr>"

text \<open>
  The component on the element without attributes, after \<^verbatim>\<open>layoutCallback\<close> (as
  constructed, were \<^verbatim>\<open>layoutCallback\<close> to raise).
\<close>

definition exampleLaidOut :: AmpFacebook where
  "exampleLaidOut =
     (case layoutCallback exampleHost (constructor exampleHost (exampleElement [])) of
        Inl e \<Rightarrow> constructor exampleHost (exampleElement [])
      | Inr st \<Rightarrow> st)"

text \<open>A message event with the given source window and data.\<close>

definition message :: "window \<Rightarrow> jsval \<Rightarrow> MessageEvent" where
  "message w d = \<lparr> source = Some w, data = d \<rparr>"

section \<open>Theorems on the geometry\<close>

lemma getDimension_X:
  "getDimension X el =
     \<lparr> start = left (boundingClientRect el), end' = right (boundingClientRect el),
       length' = width (boundingClientRect el) \<rparr>"
  by (simp add: getDimension_def Let_def)

lemma getDimension_Y:
  "getDimension Y el =
     \<lparr> start = top' (boundingClientRect el), end' = bottom (boundingClientRect el),
       length' = height (boundingClientRect el) \<rparr>"
  by (simp add: getDimension_def Let_def)

lemma getDimension_transposed:
  "getDimension Y (transposed el) = getDimension X el"
  "getDimension X (transposed el) = getDimension Y el"
  by (simp_all add: getDimension_def Let_def transposed_def transposeRect_def)

text \<open>
  Claim C3. For every axis and element, \<^verbatim>\<open>getPosition\<close> is the start edge of the
  element's dimension under \<^verbatim>\<open>Alignment.START\<close>, where it equals \<^verbatim>\<open>getStart\<close>, and the
  centre \<open>(start + end) / 2\<close> of that dimension under \<^verbatim>\<open>Alignment.CENTER\<close>, where it
  equals \<^verbatim>\<open>getCenter\<close>.
\<close>

theorem getPosition_alignment:
  "getPosition axis START el = getStart axis el
   \<and> getStart axis el = start (getDimension axis el)
   \<and> getPosition axis CENTER el = getCenter axis el
   \<and> getCenter axis el = (start (getDimension axis el) + end' (getDimension axis el)) / 2"
  by (simp add: getPosition_def getStart_def getCenter_def Let_def)

text \<open>
  Claim C2, as the code has it. The overlap test is the half-open interval test
  \<open>start \<le> position < end\<close>, the same on both axes: for every axis, element and
  position, \<^verbatim>\<open>overlaps\<close> holds exactly when the position is at or after the start and
  before the end of the element's dimension along the axis. So an element with
  \<open>start < end\<close> overlaps its start point and does not overlap its end point, which it
  shares with the adjacent element.
\<close>

theorem overlaps_half_open:
  "overlaps axis el position =
     (start (getDimension axis el) \<le> position \<and> position < end' (getDimension axis el))
   \<and> (start (getDimension axis el) < end' (getDimension axis el) \<longrightarrow>
        overlaps axis el (start (getDimension axis el))
        \<and> \<not> overlaps axis el (end' (getDimension axis el)))"
  by (simp add: overlaps_def Let_def)

theorem overlaps_half_open_witness:
  "start (getDimension Y (box 0 5 10 20)) < end' (getDimension Y (box 0 5 10 20))
   \<and> overlaps Y (box 0 5 10 20) 5
   \<and> overlaps Y (box 0 5 10 20) 12
   \<and> \<not> overlaps Y (box 0 5 10 20) 25
   \<and> \<not> overlaps Y (box 0 5 10 20) 4"
proof -
  have h: "start (getDimension Y (box 0 5 10 20)) < end' (getDimension Y (box 0 5 10 20))"
    by (simp add: getDimension_Y box_def)
  have d: "start (getDimension Y (box 0 5 10 20)) = 5"
    "end' (getDimension Y (box 0 5 10 20)) = 25"
    by (simp_all add: getDimension_Y box_def)
  from overlaps_half_open [of Y "box 0 5 10 20" 12] overlaps_half_open [of Y "box 0 5 10 20" 4]
  have "overlaps Y (box 0 5 10 20) 12" "\<not> overlaps Y (box 0 5 10 20) 4"
    "overlaps Y (box 0 5 10 20) 5" "\<not> overlaps Y (box 0 5 10 20) 25"
    using h unfolding d by simp_all
  with h show ?thesis by simp
qed

text \<open>
  Claim C2, as the spec states it, fails: the element with the rectangle from 0 to 10
  along X has \<open>start < end\<close>, overlaps the position 0 and does not overlap the
  position 10.
\<close>

theorem overlaps_boundary_counterexample:
  "start (getDimension X (box 0 0 10 10)) < end' (getDimension X (box 0 0 10 10))
   \<and> overlaps X (box 0 0 10 10) (start (getDimension X (box 0 0 10 10)))
       \<noteq> overlaps X (box 0 0 10 10) (end' (getDimension X (box 0 0 10 10)))"
  by (simp add: overlaps_def getDimension_X box_def)

lemma style_setTransformTranslateStyle:
  "style (setTransformTranslateStyle numstr axis el delta) ''transform'' =
     Some (translate numstr (if axis = X then delta else 0) (if axis = X then 0 else delta),
           False)"
  "style (setTransformTranslateStyle numstr axis el delta) ''--content-transform'' =
     Some (translate numstr (if axis = X then delta else 0) (if axis = X then 0 else delta),
           True)"
  by (simp_all add: setTransformTranslateStyle_def setStyle_def Let_def)

text \<open>
  Claim C4. The helpers treat the two axes alike: on every element and either axis,
  \<^verbatim>\<open>getDimension\<close> equals \<^verbatim>\<open>getDimension\<close> on the other axis of the element with the
  transposed rectangle, and so do \<^verbatim>\<open>getCenter\<close>, \<^verbatim>\<open>getStart\<close>, \<^verbatim>\<open>getPosition\<close>,
  \<^verbatim>\<open>overlaps\<close> and \<^verbatim>\<open>getPercentageOffsetFromAlignment\<close>; and
  \<^verbatim>\<open>setTransformTranslateStyle\<close> writes, in both properties it sets, the delta in the
  component of its axis and 0 in the component of the other axis.
\<close>

theorem axes_symmetric:
  "getDimension axis el = getDimension (swapAxis axis) (transposed el)
   \<and> getCenter axis el = getCenter (swapAxis axis) (transposed el)
   \<and> getStart axis el = getStart (swapAxis axis) (transposed el)
   \<and> getPosition axis alignment el = getPosition (swapAxis axis) alignment (transposed el)
   \<and> overlaps axis el position = overlaps (swapAxis axis) (transposed el) position
   \<and> getPercentageOffsetFromAlignment axis alignment container el =
       getPercentageOffsetFromAlignment (swapAxis axis) alignment
         (transposed container) (transposed el)
   \<and> style (setTransformTranslateStyle numstr X el delta) ''transform'' =
       Some (''translate('' @ numstr delta @ ''px, '' @ numstr 0 @ ''px)'', False)
   \<and> style (setTransformTranslateStyle numstr X el delta) ''--content-transform'' =
       Some (''translate('' @ numstr delta @ ''px, '' @ numstr 0 @ ''px)'', True)
   \<and> style (setTransformTranslateStyle numstr Y el delta) ''transform'' =
       Some (''translate('' @ numstr 0 @ ''px, '' @ numstr delta @ ''px)'', False)
   \<and> style (setTransformTranslateStyle numstr Y el delta) ''--content-transform'' =
       Some (''translate('' @ numstr 0 @ ''px, '' @ numstr delta @ ''px)'', True)"
proof -
  have d: "getDimension a e = getDimension (swapAxis a) (transposed e)" for a e
    by (cases a) (simp_all add: getDimension_transposed)
  have "getCenter axis el = getCenter (swapAxis axis) (transposed el)"
    and "getStart axis el = getStart (swapAxis axis) (transposed el)"
    and "overlaps axis el position = overlaps (swapAxis axis) (transposed el) position"
    by (simp_all add: getCenter_def getStart_def overlaps_def d [of axis el])
  moreover have p: "getPosition axis alignment e =
      getPosition (swapAxis axis) alignment (transposed e)" for e
    by (simp add: getPosition_def getCenter_def getStart_def d [of axis e])
  moreover have "getPercentageOffsetFromAlignment axis alignment container el =
       getPercentageOffsetFromAlignment (swapAxis axis) alignment
         (transposed container) (transposed el)"
    by (simp add: getPercentageOffsetFromAlignment_def p [of el] p [of container]
          d [of axis el])
  ultimately show ?thesis
    by (simp add: d [of axis el] p [of el] style_setTransformTranslateStyle translate_def)
qed

lemma getScrollPosition_updateScrollPosition:
  "getScrollPosition axis (updateScrollPosition axis el delta) =
     getScrollPosition axis el + delta"
  "getScrollPosition (swapAxis axis) (updateScrollPosition axis el delta) =
     getScrollPosition (swapAxis axis) el"
  by (cases axis; simp add: updateScrollPosition_def setScrollPosition_def
        getScrollPosition_def)+

lemma scrollContainerToElement_delta:
  "scrollContainerToElement axis alignment container el offset =
     updateScrollPosition axis container
       (getPosition axis alignment el - getPosition axis alignment container
        - (case offset of None \<Rightarrow> 0 | Some v \<Rightarrow> v) * length' (getDimension axis el))"
  by (simp add: scrollContainerToElement_def getPosition_def Let_def)

text \<open>
  Claim C7. \<^verbatim>\<open>updateScrollPosition\<close> sets the scroll position along the axis to the
  present one plus the delta. \<^verbatim>\<open>scrollContainerToElement\<close> adds to the container's
  scroll position along the axis the delta
  \<open>position el - position container - offset * length el\<close>, where the position is the
  start point under \<^verbatim>\<open>Alignment.START\<close> and the centre point under
  \<^verbatim>\<open>Alignment.CENTER\<close>, and an offset left out is 0. Both leave the scroll position
  along the other axis as it was.
\<close>

theorem scroll_delta:
  "updateScrollPosition axis el delta =
     setScrollPosition axis el (getScrollPosition axis el + delta)
   \<and> getScrollPosition axis (updateScrollPosition axis el delta) =
       getScrollPosition axis el + delta
   \<and> getScrollPosition (swapAxis axis) (updateScrollPosition axis el delta) =
       getScrollPosition (swapAxis axis) el
   \<and> getScrollPosition axis (scrollContainerToElement axis alignment container el offset) =
       getScrollPosition axis container
       + (getPosition axis alignment el - getPosition axis alignment container
          - (case offset of None \<Rightarrow> 0 | Some v \<Rightarrow> v) * length' (getDimension axis el))
   \<and> getScrollPosition (swapAxis axis)
         (scrollContainerToElement axis alignment container el offset) =
       getScrollPosition (swapAxis axis) container
   \<and> getPosition axis START el = start (getDimension axis el)
   \<and> getPosition axis CENTER el =
       (start (getDimension axis el) + end' (getDimension axis el)) / 2"
proof -
  have upd: "updateScrollPosition axis el delta =
     setScrollPosition axis el (getScrollPosition axis el + delta)"
    by (simp add: updateScrollPosition_def)
  have pos: "getPosition axis START el = start (getDimension axis el)"
    "getPosition axis CENTER el =
       (start (getDimension axis el) + end' (getDimension axis el)) / 2"
    by (simp_all add: getPosition_def getStart_def getCenter_def Let_def)
  have scr: "getScrollPosition axis
         (scrollContainerToElement axis alignment container el offset) =
       getScrollPosition axis container
       + (getPosition axis alignment el - getPosition axis alignment container
          - (case offset of None \<Rightarrow> 0 | Some v \<Rightarrow> v) * length' (getDimension axis el))"
    "getScrollPosition (swapAxis axis)
         (scrollContainerToElement axis alignment container el offset) =
       getScrollPosition (swapAxis axis) container"
    by (simp_all only: scrollContainerToElement_delta
          getScrollPosition_updateScrollPosition)
  show ?thesis
    by (intro conjI upd pos scr getScrollPosition_updateScrollPosition)
qed

subsection \<open>The search for the overlapping child\<close>


lemma loop_bound: "(real_of_int i \<le> real n / 2) = (2 * i \<le> int n)"
proof -
  have "(real_of_int i \<le> real n / 2) = (real_of_int (2 * i) \<le> real_of_int (int n))"
    by (simp add: field_simps)
  also have "\<dots> = (2 * i \<le> int n)"
    by (rule of_int_le_iff)
  finally show ?thesis .
qed

lemma overlaps_child_in_range:
  "0 \<le> k \<Longrightarrow> k < int (length children) \<Longrightarrow>
   overlaps_child axis children k pos = Inr (overlaps axis (children ! nat k) pos)"
  by (simp add: overlaps_child_def child_at_def)

lemma overlaps_child_mod':
  "children \<noteq> [] \<Longrightarrow>
   overlaps_child axis children (mod' a (int (length children))) pos =
     Inr (overlaps axis (children ! nat (a mod int (length children))) pos)"
  by (simp add: overlaps_child_in_range mod'_def)

lemma loop_unfold:
  assumes "children \<noteq> []"
  shows "findOverlappingIndex_loop axis children s pos i =
     (if 2 * i \<le> int (length children) then
        (if overlaps axis (children ! nat ((s + i) mod int (length children))) pos
         then Inr (Some ((s + i) mod int (length children)))
         else if overlaps axis (children ! nat ((s - i) mod int (length children))) pos
         then Inr (Some ((s - i) mod int (length children)))
         else findOverlappingIndex_loop axis children s pos (i + 1))
      else Inr None)"
proof -
  note oc = overlaps_child_mod' [OF assms]
  show ?thesis
    by (subst findOverlappingIndex_loop.simps)
       (simp add: loop_bound Let_def oc, simp add: mod'_def)
qed


lemma loop_cases:
  assumes ne: "children \<noteq> []"
  shows "(findOverlappingIndex_loop axis children s pos i = Inr None \<and>
          (\<forall>d. i \<le> d \<and> 2 * d \<le> int (length children) \<longrightarrow>
             \<not> overlaps axis (children ! nat ((s + d) mod int (length children))) pos \<and>
             \<not> overlaps axis (children ! nat ((s - d) mod int (length children))) pos))
       \<or> (\<exists>d. i \<le> d \<and> 2 * d \<le> int (length children) \<and>
             (\<forall>d'. i \<le> d' \<and> d' < d \<longrightarrow>
                \<not> overlaps axis (children ! nat ((s + d') mod int (length children))) pos \<and>
                \<not> overlaps axis (children ! nat ((s - d') mod int (length children))) pos) \<and>
             (if overlaps axis (children ! nat ((s + d) mod int (length children))) pos
              then findOverlappingIndex_loop axis children s pos i =
                     Inr (Some ((s + d) mod int (length children)))
              else overlaps axis (children ! nat ((s - d) mod int (length children))) pos \<and>
                   findOverlappingIndex_loop axis children s pos i =
                     Inr (Some ((s - d) mod int (length children)))))"
    (is "?P i")
proof (induction "nat (int (length children) + 1 - i)" arbitrary: i rule: less_induct)
  case less
  let ?n = "int (length children)"
  let ?ov = "\<lambda>j. overlaps axis (children ! nat (j mod ?n)) pos"
  show ?case
  proof (cases "2 * i \<le> ?n")
    case False
    then have "findOverlappingIndex_loop axis children s pos i = Inr None"
      by (simp add: loop_unfold [OF ne])
    moreover have "\<forall>d. i \<le> d \<and> 2 * d \<le> ?n \<longrightarrow> \<not> ?ov (s + d) \<and> \<not> ?ov (s - d)"
      using False by auto
    ultimately show ?thesis by blast
  next
    case True
    show ?thesis
    proof (cases "?ov (s + i) \<or> ?ov (s - i)")
      case hit: True
      have none_below: "\<forall>d'. i \<le> d' \<and> d' < i \<longrightarrow> \<not> ?ov (s + d') \<and> \<not> ?ov (s - d')"
        by linarith
      have found: "if ?ov (s + i)
              then findOverlappingIndex_loop axis children s pos i = Inr (Some ((s + i) mod ?n))
              else ?ov (s - i) \<and>
                   findOverlappingIndex_loop axis children s pos i = Inr (Some ((s - i) mod ?n))"
        using True hit by (subst (1 2) loop_unfold [OF ne]) auto
      from True none_below found show ?thesis
        by (intro disjI2 exI [of _ i]) (simp only: order_refl simp_thms)
    next
      case miss: False
      have step: "findOverlappingIndex_loop axis children s pos i =
                  findOverlappingIndex_loop axis children s pos (i + 1)"
        using True miss by (simp add: loop_unfold [OF ne, of axis s pos i])
      have "nat (?n + 1 - (i + 1)) < nat (?n + 1 - i)"
        using True by linarith
      then have IH: "?P (i + 1)" by (rule less)
      from IH show ?thesis
      proof
        assume a: "findOverlappingIndex_loop axis children s pos (i + 1) = Inr None \<and>
          (\<forall>d. i + 1 \<le> d \<and> 2 * d \<le> ?n \<longrightarrow> \<not> ?ov (s + d) \<and> \<not> ?ov (s - d))"
        have "\<forall>d. i \<le> d \<and> 2 * d \<le> ?n \<longrightarrow> \<not> ?ov (s + d) \<and> \<not> ?ov (s - d)"
        proof (intro allI impI)
          fix d assume d: "i \<le> d \<and> 2 * d \<le> ?n"
          show "\<not> ?ov (s + d) \<and> \<not> ?ov (s - d)"
          proof (cases "d = i")
            case True with miss show ?thesis by simp
          next
            case False with d a show ?thesis by simp
          qed
        qed
        with a step show ?thesis by simp
      next
        assume "\<exists>d. i + 1 \<le> d \<and> 2 * d \<le> ?n \<and>
             (\<forall>d'. i + 1 \<le> d' \<and> d' < d \<longrightarrow> \<not> ?ov (s + d') \<and> \<not> ?ov (s - d')) \<and>
             (if ?ov (s + d)
              then findOverlappingIndex_loop axis children s pos (i + 1) =
                     Inr (Some ((s + d) mod ?n))
              else ?ov (s - d) \<and>
                   findOverlappingIndex_loop axis children s pos (i + 1) =
                     Inr (Some ((s - d) mod ?n)))"
        then obtain d where d: "i + 1 \<le> d" "2 * d \<le> ?n"
            "\<forall>d'. i + 1 \<le> d' \<and> d' < d \<longrightarrow> \<not> ?ov (s + d') \<and> \<not> ?ov (s - d')"
            "if ?ov (s + d)
              then findOverlappingIndex_loop axis children s pos (i + 1) =
                     Inr (Some ((s + d) mod ?n))
              else ?ov (s - d) \<and>
                   findOverlappingIndex_loop axis children s pos (i + 1) =
                     Inr (Some ((s - d) mod ?n))"
          by blast
        have below: "\<forall>d'. i \<le> d' \<and> d' < d \<longrightarrow> \<not> ?ov (s + d') \<and> \<not> ?ov (s - d')"
        proof (intro allI impI)
          fix d' assume d': "i \<le> d' \<and> d' < d"
          show "\<not> ?ov (s + d') \<and> \<not> ?ov (s - d')"
          proof (cases "d' = i")
            case True with miss show ?thesis by simp
          next
            case False with d' d(3) show ?thesis by simp
          qed
        qed
        have "i \<le> d" using d(1) by simp
        with d(2) below d(4) step show ?thesis
          by (intro disjI2 exI [of _ d]) simp
      qed
    qed
  qed
qed


lemma neg_mod_cases:
  fixes n x :: int
  assumes "0 < n"
  shows "(- x) mod n = (if x mod n = 0 then 0 else n - x mod n)"
  by (rule zmod_zminus1_eq_if)

lemma circular_distance_candidate:
  fixes n s j :: int
  assumes n: "0 < n" and j: "0 \<le> j" "j < n"
  shows "0 \<le> circular_distance n s j \<and> 2 * circular_distance n s j \<le> n \<and>
         (j = (s + circular_distance n s j) mod n \<or> j = (s - circular_distance n s j) mod n)"
proof -
  let ?a = "(j - s) mod n" and ?b = "(s - j) mod n"
  have a: "0 \<le> ?a" "?a < n" using n by simp_all
  have "?b = (- (j - s)) mod n" by simp
  then have b: "?b = (if ?a = 0 then 0 else n - ?a)"
    by (simp only: neg_mod_cases [OF n])
  have fwd: "(s + ?a) mod n = j"
  proof -
    have "(s + ?a) mod n = (s + (j - s)) mod n" by (rule mod_add_right_eq)
    then show ?thesis using j by simp
  qed
  have bwd: "(s - ?b) mod n = j"
  proof -
    have "(s - ?b) mod n = (s - (s - j)) mod n" by (rule mod_diff_right_eq)
    then show ?thesis using j by simp
  qed
  show ?thesis
  proof (cases "?a \<le> ?b")
    case True
    then have d: "circular_distance n s j = ?a" by (simp add: circular_distance_def)
    have "2 * ?a \<le> n" using True a b by (simp split: if_splits)
    with a fwd show ?thesis unfolding d by simp
  next
    case False
    then have d: "circular_distance n s j = ?b" by (simp add: circular_distance_def)
    have "0 \<le> ?b" "2 * ?b \<le> n" using False a b by (simp_all split: if_splits)
    with bwd show ?thesis unfolding d by simp
  qed
qed

lemma circular_distance_forward:
  fixes n s d :: int
  assumes n: "0 < n" and d: "0 \<le> d" "2 * d \<le> n"
  shows "circular_distance n s ((s + d) mod n) = d"
proof -
  have dn: "d < n" using n d by linarith
  have a: "((s + d) mod n - s) mod n = d"
  proof -
    have "((s + d) mod n - s) mod n = (s + d - s) mod n" by (rule mod_diff_left_eq)
    then show ?thesis using d dn by simp
  qed
  have "(s - (s + d) mod n) mod n = (s - (s + d)) mod n" by (rule mod_diff_right_eq)
  then have "(s - (s + d) mod n) mod n = (- d) mod n" by simp
  then have b: "(s - (s + d) mod n) mod n = (if d = 0 then 0 else n - d)"
    using d dn by (simp add: neg_mod_cases [OF n])
  show ?thesis using d unfolding circular_distance_def a b by simp
qed

lemma circular_distance_backward:
  fixes n s d :: int
  assumes n: "0 < n" and d: "0 \<le> d" "2 * d \<le> n"
  shows "circular_distance n s ((s - d) mod n) = d"
proof -
  have dn: "d < n" using n d by linarith
  have "((s - d) mod n - s) mod n = (s - d - s) mod n" by (rule mod_diff_left_eq)
  then have "((s - d) mod n - s) mod n = (- d) mod n" by simp
  then have a: "((s - d) mod n - s) mod n = (if d = 0 then 0 else n - d)"
    using d dn by (simp add: neg_mod_cases [OF n])
  have b: "(s - (s - d) mod n) mod n = d"
  proof -
    have "(s - (s - d) mod n) mod n = (s - (s - d)) mod n" by (rule mod_diff_right_eq)
    then show ?thesis using d dn by simp
  qed
  show ?thesis using d unfolding circular_distance_def a b by simp
qed


lemma findOverlappingIndex_cases:
  assumes ne: "children \<noteq> []" and s: "0 \<le> s" "s < int (length children)"
  shows "(findOverlappingIndex axis alignment container children s = Inr None \<and>
          (\<forall>d. 0 \<le> d \<and> 2 * d \<le> int (length children) \<longrightarrow>
             \<not> overlaps axis (children ! nat ((s + d) mod int (length children)))
                 (getPosition axis alignment container) \<and>
             \<not> overlaps axis (children ! nat ((s - d) mod int (length children)))
                 (getPosition axis alignment container)))
       \<or> (\<exists>d. 0 \<le> d \<and> 2 * d \<le> int (length children) \<and>
             (\<forall>d'. 0 \<le> d' \<and> d' < d \<longrightarrow>
                \<not> overlaps axis (children ! nat ((s + d') mod int (length children)))
                    (getPosition axis alignment container) \<and>
                \<not> overlaps axis (children ! nat ((s - d') mod int (length children)))
                    (getPosition axis alignment container)) \<and>
             (if overlaps axis (children ! nat ((s + d) mod int (length children)))
                   (getPosition axis alignment container)
              then findOverlappingIndex axis alignment container children s =
                     Inr (Some ((s + d) mod int (length children)))
              else overlaps axis (children ! nat ((s - d) mod int (length children)))
                     (getPosition axis alignment container) \<and>
                   findOverlappingIndex axis alignment container children s =
                     Inr (Some ((s - d) mod int (length children)))))"
proof -
  let ?n = "int (length children)"
  let ?pos = "getPosition axis alignment container"
  let ?ov = "\<lambda>j. overlaps axis (children ! nat (j mod ?n)) ?pos"
  let ?f = "findOverlappingIndex axis alignment container children s"
  have n: "0 < ?n" using ne by simp
  have smod: "s mod ?n = s" using s by simp
  have first: "?f = (if overlaps axis (children ! nat s) ?pos then Inr (Some s)
                     else findOverlappingIndex_loop axis children s ?pos 1)"
    by (simp add: findOverlappingIndex_def overlaps_child_in_range [OF s])
  show ?thesis
  proof (cases "overlaps axis (children ! nat s) ?pos")
    case True
    have "\<forall>d'. 0 \<le> d' \<and> d' < (0::int) \<longrightarrow> \<not> ?ov (s + d') \<and> \<not> ?ov (s - d')"
      by linarith
    moreover have "if ?ov (s + 0) then ?f = Inr (Some ((s + 0) mod ?n))
       else ?ov (s - 0) \<and> ?f = Inr (Some ((s - 0) mod ?n))"
      using True first smod by simp
    moreover have "(0::int) \<le> 0 \<and> 2 * 0 \<le> ?n" by simp
    ultimately show ?thesis
      by (intro disjI2 exI [of _ "0::int"]) (simp only: simp_thms)
  next
    case False
    then have f: "?f = findOverlappingIndex_loop axis children s ?pos 1"
      using first by simp
    have zero: "\<not> ?ov (s + 0) \<and> \<not> ?ov (s - 0)" using False smod by simp
    from loop_cases [OF ne, of axis s ?pos 1] show ?thesis
    proof
      assume a: "findOverlappingIndex_loop axis children s ?pos 1 = Inr None \<and>
          (\<forall>d. 1 \<le> d \<and> 2 * d \<le> ?n \<longrightarrow> \<not> ?ov (s + d) \<and> \<not> ?ov (s - d))"
      have "\<forall>d. 0 \<le> d \<and> 2 * d \<le> ?n \<longrightarrow> \<not> ?ov (s + d) \<and> \<not> ?ov (s - d)"
      proof (intro allI impI)
        fix d :: int assume d: "0 \<le> d \<and> 2 * d \<le> ?n"
        show "\<not> ?ov (s + d) \<and> \<not> ?ov (s - d)"
        proof (cases "d = 0")
          case True with zero show ?thesis by simp
        next
          case False
          with d have "1 \<le> d \<and> 2 * d \<le> ?n" by linarith
          with a show ?thesis by blast
        qed
      qed
      with a f show ?thesis by simp
    next
      assume "\<exists>d. 1 \<le> d \<and> 2 * d \<le> ?n \<and>
             (\<forall>d'. 1 \<le> d' \<and> d' < d \<longrightarrow> \<not> ?ov (s + d') \<and> \<not> ?ov (s - d')) \<and>
             (if ?ov (s + d)
              then findOverlappingIndex_loop axis children s ?pos 1 =
                     Inr (Some ((s + d) mod ?n))
              else ?ov (s - d) \<and>
                   findOverlappingIndex_loop axis children s ?pos 1 =
                     Inr (Some ((s - d) mod ?n)))"
      then obtain d where d: "1 \<le> d" "2 * d \<le> ?n"
          "\<forall>d'. 1 \<le> d' \<and> d' < d \<longrightarrow> \<not> ?ov (s + d') \<and> \<not> ?ov (s - d')"
          "if ?ov (s + d)
              then findOverlappingIndex_loop axis children s ?pos 1 =
                     Inr (Some ((s + d) mod ?n))
              else ?ov (s - d) \<and>
                   findOverlappingIndex_loop axis children s ?pos 1 =
                     Inr (Some ((s - d) mod ?n))"
        by blast
      have below: "\<forall>d'. 0 \<le> d' \<and> d' < d \<longrightarrow> \<not> ?ov (s + d') \<and> \<not> ?ov (s - d')"
      proof (intro allI impI)
        fix d' :: int assume d': "0 \<le> d' \<and> d' < d"
        show "\<not> ?ov (s + d') \<and> \<not> ?ov (s - d')"
        proof (cases "d' = 0")
          case True with zero show ?thesis by simp
        next
          case False
          with d' have "1 \<le> d' \<and> d' < d" by linarith
          with d(3) show ?thesis by blast
        qed
      qed
      have "0 \<le> d" using d(1) by simp
      with d(2) below d(4) f show ?thesis
        by (intro disjI2 exI [of _ d]) simp
    qed
  qed
qed


text \<open>
  Claim C9. For a non-empty array of children and a start index within it,
  \<^verbatim>\<open>findOverlappingIndex\<close> raises nothing; it returns \<^verbatim>\<open>undefined\<close> exactly when no
  child overlaps the container's alignment position; and an index \<open>k\<close> it returns is
  an index of the array whose child overlaps the position, at the least circular distance
  from the start index among the overlapping children; it is the start index when the
  child there overlaps; and it is the forward index \<open>startIndex + distance\<close> (modulo
  the length) when the child there overlaps, whatever the child at the backward index
  does.
\<close>

theorem findOverlappingIndex_nearest:
  assumes ne: "children \<noteq> []"
    and s: "0 \<le> startIndex" "startIndex < int (length children)"
  shows "(findOverlappingIndex axis alignment container children startIndex = Inr None) =
           (\<forall>j < length children.
              \<not> overlaps axis (children ! j) (getPosition axis alignment container))
       \<and> (findOverlappingIndex axis alignment container children startIndex = Inr None
          \<or> (\<exists>k. findOverlappingIndex axis alignment container children startIndex =
                  Inr (Some k)))
       \<and> (\<forall>k. findOverlappingIndex axis alignment container children startIndex = Inr (Some k)
            \<longrightarrow> 0 \<le> k \<and> k < int (length children)
              \<and> overlaps axis (children ! nat k) (getPosition axis alignment container)
              \<and> (\<forall>j < length children.
                    overlaps axis (children ! j) (getPosition axis alignment container) \<longrightarrow>
                    circular_distance (int (length children)) startIndex k
                      \<le> circular_distance (int (length children)) startIndex (int j))
              \<and> (overlaps axis (children ! nat startIndex)
                    (getPosition axis alignment container) \<longrightarrow> k = startIndex)
              \<and> (overlaps axis
                    (children ! nat ((startIndex
                        + circular_distance (int (length children)) startIndex k)
                        mod int (length children)))
                    (getPosition axis alignment container) \<longrightarrow>
                  k = (startIndex + circular_distance (int (length children)) startIndex k)
                        mod int (length children)))"
proof -
  let ?n = "int (length children)"
  let ?pos = "getPosition axis alignment container"
  let ?s = startIndex
  let ?ov = "\<lambda>j. overlaps axis (children ! nat (j mod ?n)) ?pos"
  let ?f = "findOverlappingIndex axis alignment container children startIndex"
  let ?cd = "circular_distance ?n ?s"
  have n: "0 < ?n" using ne by simp
  have smod: "?s mod ?n = ?s" using s by simp
  \<comment> \<open>every index is a candidate at its circular distance\<close>
  have cand: "?ov (?s + ?cd (int j)) \<or> ?ov (?s - ?cd (int j))"
    if "j < length children" "overlaps axis (children ! j) ?pos" for j
  proof -
    have j: "0 \<le> int j" "int j < ?n" using that(1) by simp_all
    from circular_distance_candidate [OF n j, of ?s]
    have "int j = (?s + ?cd (int j)) mod ?n \<or> int j = (?s - ?cd (int j)) mod ?n"
      by simp
    then show ?thesis
    proof
      assume "int j = (?s + ?cd (int j)) mod ?n"
      then have "nat ((?s + ?cd (int j)) mod ?n) = j" by simp
      with that(2) show ?thesis by simp
    next
      assume "int j = (?s - ?cd (int j)) mod ?n"
      then have "nat ((?s - ?cd (int j)) mod ?n) = j" by simp
      with that(2) show ?thesis by simp
    qed
  qed
  have cd_range: "0 \<le> ?cd (int j) \<and> 2 * ?cd (int j) \<le> ?n" if "j < length children" for j
  proof -
    have j: "0 \<le> int j" "int j < ?n" using that by simp_all
    from circular_distance_candidate [OF n j, of ?s] show ?thesis by simp
  qed
  from findOverlappingIndex_cases [OF ne s, of axis alignment container]
  show ?thesis
  proof
    assume a: "?f = Inr None \<and>
      (\<forall>d. 0 \<le> d \<and> 2 * d \<le> ?n \<longrightarrow> \<not> ?ov (?s + d) \<and> \<not> ?ov (?s - d))"
    have none: "\<forall>j < length children. \<not> overlaps axis (children ! j) ?pos"
    proof (intro allI impI notI)
      fix j assume j: "j < length children" "overlaps axis (children ! j) ?pos"
      from cand [OF j] cd_range [OF j(1)] a show False by blast
    qed
    with a show ?thesis by simp
  next
    assume "\<exists>d. 0 \<le> d \<and> 2 * d \<le> ?n \<and>
             (\<forall>d'. 0 \<le> d' \<and> d' < d \<longrightarrow> \<not> ?ov (?s + d') \<and> \<not> ?ov (?s - d')) \<and>
             (if ?ov (?s + d) then ?f = Inr (Some ((?s + d) mod ?n))
              else ?ov (?s - d) \<and> ?f = Inr (Some ((?s - d) mod ?n)))"
    then obtain d where d: "0 \<le> d" "2 * d \<le> ?n"
        and below: "\<forall>d'. 0 \<le> d' \<and> d' < d \<longrightarrow> \<not> ?ov (?s + d') \<and> \<not> ?ov (?s - d')"
        and res: "if ?ov (?s + d) then ?f = Inr (Some ((?s + d) mod ?n))
              else ?ov (?s - d) \<and> ?f = Inr (Some ((?s - d) mod ?n))"
      by blast
    define k where "k = (if ?ov (?s + d) then (?s + d) mod ?n else (?s - d) mod ?n)"
    have fk: "?f = Inr (Some k)" using res by (simp add: k_def split: if_splits)
    have k_range: "0 \<le> k" "k < ?n" using n by (simp_all add: k_def)
    have kmod: "k mod ?n = k" using k_range by simp
    have ov_k: "overlaps axis (children ! nat k) ?pos"
      using res by (simp add: k_def split: if_splits)
    have cd_k: "?cd k = d"
      using circular_distance_forward [OF n d, of ?s]
            circular_distance_backward [OF n d, of ?s]
      by (simp add: k_def)
    have minimal: "?cd k \<le> ?cd (int j)"
      if "j < length children" "overlaps axis (children ! j) ?pos" for j
    proof (rule ccontr)
      assume "\<not> ?cd k \<le> ?cd (int j)"
      then have "0 \<le> ?cd (int j) \<and> ?cd (int j) < d"
        using cd_range [OF that(1)] cd_k by simp
      with below have "\<not> ?ov (?s + ?cd (int j)) \<and> \<not> ?ov (?s - ?cd (int j))" by blast
      with cand [OF that] show False by blast
    qed
    have start_first: "k = ?s" if "overlaps axis (children ! nat ?s) ?pos"
    proof -
      have "d = 0"
      proof (rule ccontr)
        assume "d \<noteq> 0"
        with d(1) have "0 \<le> (0::int) \<and> (0::int) < d" by simp
        with below have "\<not> ?ov (?s + 0)" by blast
        with that smod show False by simp
      qed
      then show ?thesis using smod by (simp add: k_def)
    qed
    have forward_first: "k = (?s + ?cd k) mod ?n"
      if "overlaps axis (children ! nat ((?s + ?cd k) mod ?n)) ?pos"
      using that unfolding cd_k by (simp add: k_def)
    have not_none: "\<not> (\<forall>j < length children. \<not> overlaps axis (children ! j) ?pos)"
    proof -
      have "nat k < length children" using k_range by simp
      with ov_k show ?thesis by blast
    qed
    have part1: "(?f = Inr None) =
        (\<forall>j < length children. \<not> overlaps axis (children ! j) ?pos)"
      using fk not_none by simp
    have part2: "?f = Inr None \<or> (\<exists>k. ?f = Inr (Some k))"
      using fk by blast
    have part3: "\<forall>k'. ?f = Inr (Some k') \<longrightarrow> 0 \<le> k' \<and> k' < ?n
              \<and> overlaps axis (children ! nat k') ?pos
              \<and> (\<forall>j < length children. overlaps axis (children ! j) ?pos \<longrightarrow>
                    ?cd k' \<le> ?cd (int j))
              \<and> (overlaps axis (children ! nat ?s) ?pos \<longrightarrow> k' = ?s)
              \<and> (overlaps axis (children ! nat ((?s + ?cd k') mod ?n)) ?pos \<longrightarrow>
                  k' = (?s + ?cd k') mod ?n)"
    proof (intro allI impI)
      fix k' assume "?f = Inr (Some k')"
      with fk have eq: "k' = k" by simp
      show "0 \<le> k' \<and> k' < ?n
              \<and> overlaps axis (children ! nat k') ?pos
              \<and> (\<forall>j < length children. overlaps axis (children ! j) ?pos \<longrightarrow>
                    ?cd k' \<le> ?cd (int j))
              \<and> (overlaps axis (children ! nat ?s) ?pos \<longrightarrow> k' = ?s)
              \<and> (overlaps axis (children ! nat ((?s + ?cd k') mod ?n)) ?pos \<longrightarrow>
                  k' = (?s + ?cd k') mod ?n)"
        unfolding eq
        using k_range ov_k minimal start_first forward_first by blast
    qed
    from part1 part2 part3 show ?thesis by (intro conjI)
  qed
qed

theorem findOverlappingIndex_nearest_witness:
  "exampleChildren \<noteq> [] \<and> (0::int) \<le> 0 \<and> (0::int) < int (length exampleChildren)
   \<and> findOverlappingIndex X START exampleContainer exampleChildren 0 = Inr (Some 1)
   \<and> overlaps X (exampleChildren ! 1) (getPosition X START exampleContainer)
   \<and> overlaps X (exampleChildren ! 3) (getPosition X START exampleContainer)
   \<and> circular_distance (int (length exampleChildren)) 0 1
       \<le> circular_distance (int (length exampleChildren)) 0 3"
proof -
  have ne: "exampleChildren \<noteq> []"
    and s: "(0::int) \<le> 0" "(0::int) < int (length exampleChildren)"
    by (simp_all add: exampleChildren_def)
  note nearest = findOverlappingIndex_nearest [OF ne s, of X START exampleContainer]
  have pos: "getPosition X START exampleContainer = 25"
    by (simp add: getPosition_def getStart_def getDimension_X exampleContainer_def box_def)
  have ov: "\<not> overlaps X (exampleChildren ! 0) 25" "overlaps X (exampleChildren ! 1) 25"
    "\<not> overlaps X (exampleChildren ! 2) 25" "overlaps X (exampleChildren ! 3) 25"
    by (simp_all add: overlaps_def getDimension_X exampleChildren_def box_def)
  have len: "length exampleChildren = 4"
    by (simp add: exampleChildren_def)
  have found: "findOverlappingIndex X START exampleContainer exampleChildren 0 =
      Inr (Some 1)"
    using ov
    by (simp add: findOverlappingIndex_def pos overlaps_child_in_range len
          loop_unfold [OF ne])
  from nearest found
  have "0 \<le> (1::int) \<and> (1::int) < int (length exampleChildren)
      \<and> overlaps X (exampleChildren ! nat 1) (getPosition X START exampleContainer)
      \<and> (\<forall>j < length exampleChildren.
            overlaps X (exampleChildren ! j) (getPosition X START exampleContainer) \<longrightarrow>
            circular_distance (int (length exampleChildren)) 0 1
              \<le> circular_distance (int (length exampleChildren)) 0 (int j))"
    by blast
  then have k: "overlaps X (exampleChildren ! nat 1) (getPosition X START exampleContainer)"
    and least: "\<And>j. j < length exampleChildren \<Longrightarrow>
            overlaps X (exampleChildren ! j) (getPosition X START exampleContainer) \<Longrightarrow>
            circular_distance (int (length exampleChildren)) 0 1
              \<le> circular_distance (int (length exampleChildren)) 0 (int j)"
    by blast+
  have "circular_distance (int (length exampleChildren)) 0 1
           \<le> circular_distance (int (length exampleChildren)) 0 (int 3)"
    by (rule least) (simp_all add: len pos ov)
  with k ne s found ov(4) pos show ?thesis by simp
qed

section \<open>Theorems on the embed component\<close>

lemma handle_foreign_source:
  "iframe_p st = Some ifr \<Longrightarrow> source event \<noteq> contentWindow ifr \<Longrightarrow>
   handleFacebookMessages_p host st event = Inr st"
  by (simp add: handleFacebookMessages_p_def)

lemma handle_falsy_data:
  "falsy (data event) \<Longrightarrow> handleFacebookMessages_p host st event = Inr st"
  by (simp add: handleFacebookMessages_p_def getData_def)

lemma handle_unparsed_data:
  "falsy (parsedEventData host (data event)) \<Longrightarrow>
   handleFacebookMessages_p host st event = Inr st"
  by (simp add: handleFacebookMessages_p_def getData_def Let_def)

lemma handle_string_data:
  "data event = JStr s \<Longrightarrow> handleFacebookMessages_p host st event = Inr st"
  by (simp add: handleFacebookMessages_p_def getData_def Let_def)

lemma handle_ready_object:
  assumes "data event = JObj ps" and "map_of ps ''action'' = Some (JStr ''ready'')"
    and "case iframe_p st of None \<Rightarrow> True | Some ifr \<Rightarrow> source event = contentWindow ifr"
  shows "handleFacebookMessages_p host st event =
     Inr (if test host
          then (toggleLoading st False)\<lparr>toggleLoadingCounter_p :=
                 toggleLoadingCounter_p (toggleLoading st False) + 1\<rparr>
          else toggleLoading st False)"
  using assms
  by (simp add: handleFacebookMessages_p_def getData_def parsedEventData_def Let_def
        split: option.splits)

lemma iframe_p_handle:
  "handleFacebookMessages_p host st event = Inr st' \<Longrightarrow> iframe_p st' = iframe_p st"
  by (auto simp add: handleFacebookMessages_p_def getData_def Let_def toggleLoading_def
        call_def split: if_splits sum.splits)

lemma iframe_p_deliver: "iframe_p (deliver host st event) = iframe_p st"
  by (simp add: deliver_def iframe_p_handle split: sum.splits)

lemma iframe_p_dispatch: "iframe_p (dispatch host st events) = iframe_p st"
  by (induction events arbitrary: st) (simp_all add: iframe_p_deliver)

lemma dispatch_append:
  "dispatch host st (xs @ ys) = dispatch host (dispatch host st xs) ys"
  by (induction xs arbitrary: st) simp_all

lemma exampleLaidOut_eq:
  "layoutCallback exampleHost (constructor exampleHost (exampleElement [])) =
     Inr exampleLaidOut"
  "iframe_p exampleLaidOut = Some exampleIframe"
  "hostCalls exampleLaidOut =
     [ApplyFillContent exampleIframe, ListenFor exampleIframe ''embed-size'' True,
      Listen ''message'', ToggleLoading True, LoadPromise exampleIframe]"
  "toggleLoadingCounter_p exampleLaidOut = 0"
  by (simp_all add: exampleLaidOut_def layoutCallback_def constructor_def exampleHost_def
        exampleElement_def exampleIframe_def userAssert_def getAttribute_def hasAttribute_def
        call_def toggleLoading_def TYPE'_def Let_def)

lemma layoutCallback_result:
  assumes "layoutCallback host st = Inr st'"
  shows "\<exists>ifr. iframe_p st' = Some ifr
           \<and> childNodes (element st') = childNodes (element st) @ [ifr]
           \<and> hostCalls st' = hostCalls st @
               [ApplyFillContent (ifr\<lparr>iframe_attributes :=
                   iframe_attributes (getIframe host (element st) TYPE')\<rparr>),
                ListenFor ifr ''embed-size'' True, Listen ''message'', ToggleLoading True,
                LoadPromise ifr]"
  using assms
  by (auto simp add: layoutCallback_def Let_def call_def toggleLoading_def
        split: sum.splits if_splits)

lemma layoutCallback_cases:
  "layoutCallback host st =
     (if \<exists>v. getAttribute (attributes (element st)) ''data-embed-as'' = Some v
              \<and> v \<noteq> [] \<and> v \<notin> set [''post'', ''video'', ''comment'']
      then Inl (UserError embedAsMessage
                  (getAttribute (attributes (element st)) ''data-embed-as''))
      else layoutCallback host st)
   \<and> ((\<exists>v. getAttribute (attributes (element st)) ''data-embed-as'' = Some v
              \<and> v \<noteq> [] \<and> v \<notin> set [''post'', ''video'', ''comment''])
        \<or> (\<exists>st'. layoutCallback host st = Inr st'))"
  by (cases "getAttribute (attributes (element st)) ''data-embed-as''")
     (auto simp add: layoutCallback_def userAssert_def Let_def)

text \<open>
  Claim C1, on the code. After \<^verbatim>\<open>layoutCallback\<close> has attached the iframe, the message
  from the iframe's window whose data is the string \<^verbatim>\<open>{"action":"ready"}\<close>, which
  \<^verbatim>\<open>JSON.parse\<close> reads as the object \<^verbatim>\<open>{action: 'ready'}\<close>, leaves the component as it
  is: \<^verbatim>\<open>toggleLoading(false)\<close> is not called. The handler looks the action up in the
  string, not in the object parsed from it. The same message with the object itself as
  data does call \<^verbatim>\<open>toggleLoading(false)\<close>.
\<close>

theorem ready_json_string_not_handled:
  "layoutCallback exampleHost (constructor exampleHost (exampleElement [])) =
     Inr exampleLaidOut
   \<and> iframe_p exampleLaidOut = Some exampleIframe
   \<and> contentWindow exampleIframe = Some 7
   \<and> parseJson exampleHost (JStr readyJson) = Some (JObj [(''action'', JStr ''ready'')])
   \<and> handleFacebookMessages_p exampleHost exampleLaidOut (message 7 (JStr readyJson)) =
       Inr exampleLaidOut
   \<and> ToggleLoading False \<notin> set (hostCalls exampleLaidOut)
   \<and> handleFacebookMessages_p exampleHost exampleLaidOut
         (message 7 (JObj [(''action'', JStr ''ready'')])) =
       Inr (toggleLoading exampleLaidOut False)"
proof -
  have "handleFacebookMessages_p exampleHost exampleLaidOut (message 7 (JStr readyJson)) =
       Inr exampleLaidOut"
    by (rule handle_string_data) (simp add: message_def)
  moreover have "handleFacebookMessages_p exampleHost exampleLaidOut
         (message 7 (JObj [(''action'', JStr ''ready'')])) =
       Inr (toggleLoading exampleLaidOut False)"
    by (subst handle_ready_object [where ps = "[(''action'', JStr ''ready'')]"])
       (simp_all add: message_def exampleLaidOut_eq exampleIframe_def exampleHost_def)
  moreover have "parseJson exampleHost (JStr readyJson) =
      Some (JObj [(''action'', JStr ''ready'')])"
    by (simp add: exampleHost_def)
  ultimately show ?thesis
    by (simp add: exampleLaidOut_eq) (simp add: exampleIframe_def)
qed

text \<open>
  Claim C5, as the code has it. \<^verbatim>\<open>layoutCallback\<close> raises the user error exactly when
  the element has a \<^verbatim>\<open>data-embed-as\<close> attribute whose value is not empty and is none of
  \<^verbatim>\<open>post\<close>, \<^verbatim>\<open>video\<close>, \<^verbatim>\<open>comment\<close>; when the attribute is absent, empty or one of the
  three, the assertion passes and the layout goes on to attach the iframe.
\<close>

theorem embed_as_validated:
  "(\<exists>e. layoutCallback host st = Inl e) =
     (\<exists>v. getAttribute (attributes (element st)) ''data-embed-as'' = Some v
          \<and> v \<noteq> [] \<and> v \<notin> set [''post'', ''video'', ''comment''])
   \<and> (if \<exists>v. getAttribute (attributes (element st)) ''data-embed-as'' = Some v
              \<and> v \<noteq> [] \<and> v \<notin> set [''post'', ''video'', ''comment'']
       then layoutCallback host st =
              Inl (UserError embedAsMessage
                     (getAttribute (attributes (element st)) ''data-embed-as''))
       else \<exists>st' ifr. layoutCallback host st = Inr st' \<and> iframe_p st' = Some ifr
              \<and> childNodes (element st') = childNodes (element st) @ [ifr])"
proof (cases "\<exists>v. getAttribute (attributes (element st)) ''data-embed-as'' = Some v
              \<and> v \<noteq> [] \<and> v \<notin> set [''post'', ''video'', ''comment'']")
  case True
  with layoutCallback_cases [of host st]
  have "layoutCallback host st =
      Inl (UserError embedAsMessage (getAttribute (attributes (element st)) ''data-embed-as''))"
    by (simp only: if_True)
  with True show ?thesis by (simp only: if_True) blast
next
  case False
  with layoutCallback_cases [of host st]
  obtain st' where st': "layoutCallback host st = Inr st'" by blast
  from layoutCallback_result [OF st']
  obtain ifr where "iframe_p st' = Some ifr"
    "childNodes (element st') = childNodes (element st) @ [ifr]" by blast
  with st' have "\<exists>st' ifr. layoutCallback host st = Inr st' \<and> iframe_p st' = Some ifr
              \<and> childNodes (element st') = childNodes (element st) @ [ifr]" by blast
  moreover have "\<not> (\<exists>e. layoutCallback host st = Inl e)" using st' by simp
  ultimately show ?thesis using False by (simp only: if_False simp_thms)
qed

theorem embed_as_validated_witness:
  "layoutCallback exampleHost
     (constructor exampleHost (exampleElement [(''data-embed-as'', ''photo'')])) =
     Inl (UserError embedAsMessage (Some ''photo''))
   \<and> (\<exists>st' ifr. layoutCallback exampleHost
          (constructor exampleHost (exampleElement [(''data-embed-as'', ''video'')])) = Inr st'
        \<and> iframe_p st' = Some ifr)
   \<and> (\<exists>st' ifr. layoutCallback exampleHost (constructor exampleHost (exampleElement [])) =
          Inr st' \<and> iframe_p st' = Some ifr)"
proof -
  have a: "attributes (element (constructor exampleHost (exampleElement attrs))) = attrs"
    for attrs
    by (simp add: constructor_def exampleElement_def)
  from embed_as_validated
         [of exampleHost "constructor exampleHost (exampleElement [(''data-embed-as'', ''photo'')])"]
  have 1: "layoutCallback exampleHost
     (constructor exampleHost (exampleElement [(''data-embed-as'', ''photo'')])) =
     Inl (UserError embedAsMessage (Some ''photo''))"
    by (simp add: a getAttribute_def)
  from embed_as_validated
         [of exampleHost "constructor exampleHost (exampleElement [(''data-embed-as'', ''video'')])"]
  have 2: "\<exists>st' ifr. layoutCallback exampleHost
          (constructor exampleHost (exampleElement [(''data-embed-as'', ''video'')])) = Inr st'
        \<and> iframe_p st' = Some ifr"
    by (simp add: a getAttribute_def) blast
  from embed_as_validated [of exampleHost "constructor exampleHost (exampleElement [])"]
  have 3: "\<exists>st' ifr. layoutCallback exampleHost (constructor exampleHost (exampleElement [])) =
          Inr st' \<and> iframe_p st' = Some ifr"
    by (simp add: a getAttribute_def) blast
  from 1 2 3 show ?thesis by (intro conjI)
qed

text \<open>
  Claim C5, as the spec states it, fails: on the element with the attribute
  \<^verbatim>\<open>data-embed-as=""\<close>, whose value is none of the three, \<^verbatim>\<open>layoutCallback\<close> raises
  nothing.
\<close>

theorem embed_as_empty_counterexample:
  "getAttribute
     (attributes (element (constructor exampleHost (exampleElement [(''data-embed-as'', [])]))))
     ''data-embed-as'' = Some []
   \<and> [] \<notin> set [''post'', ''video'', ''comment'']
   \<and> \<not> isl (layoutCallback exampleHost
              (constructor exampleHost (exampleElement [(''data-embed-as'', [])])))"
  by (simp add: layoutCallback_def constructor_def exampleElement_def userAssert_def
        getAttribute_def Let_def)

text \<open>
  Claim C6. On a message event whose data is \<^verbatim>\<open>null\<close> or \<^verbatim>\<open>undefined\<close>, or a string
  that \<^verbatim>\<open>JSON.parse\<close> rejects, the handler returns at one of its guards (on the data or
  on the parsed data, when not already on the source) and the component is as it was: no
  call of \<^verbatim>\<open>toggleLoading\<close> is recorded and \<^verbatim>\<open>toggleLoadingCounter_\<close> is the same.
\<close>

theorem defensive_checks:
  assumes "data event = JNull \<or> data event = JUndefined
           \<or> (\<exists>s. data event = JStr s \<and> parseJson host (JStr s) = None)"
  shows "handleFacebookMessages_p host st event = Inr st
         \<and> (falsy (getData event) \<or> falsy (parsedEventData host (getData event)))"
proof -
  from assms have "falsy (data event) \<or> falsy (parsedEventData host (data event))"
    by (auto simp add: parsedEventData_def tryParseJson_def)
  then show ?thesis
    by (auto simp add: getData_def handle_falsy_data handle_unparsed_data)
qed

theorem defensive_checks_witness:
  "(data (message 7 (JStr ''{action'')) = JNull
      \<or> data (message 7 (JStr ''{action'')) = JUndefined
      \<or> (\<exists>s. data (message 7 (JStr ''{action'')) = JStr s
              \<and> parseJson exampleHost (JStr s) = None))
   \<and> source (message 7 (JStr ''{action'')) = contentWindow exampleIframe
   \<and> \<not> falsy (getData (message 7 (JStr ''{action'')))
   \<and> falsy (parsedEventData exampleHost (getData (message 7 (JStr ''{action''))))
   \<and> handleFacebookMessages_p exampleHost exampleLaidOut (message 7 (JStr ''{action'')) =
       Inr exampleLaidOut
   \<and> handleFacebookMessages_p exampleHost exampleLaidOut (message 7 JNull) =
       Inr exampleLaidOut"
proof -
  have h1: "data (message 7 (JStr ''{action'')) = JNull
      \<or> data (message 7 (JStr ''{action'')) = JUndefined
      \<or> (\<exists>s. data (message 7 (JStr ''{action'')) = JStr s
              \<and> parseJson exampleHost (JStr s) = None)"
    by (simp add: message_def exampleHost_def readyJson_def)
  have h2: "data (message 7 JNull) = JNull \<or> data (message 7 JNull) = JUndefined
      \<or> (\<exists>s. data (message 7 JNull) = JStr s \<and> parseJson exampleHost (JStr s) = None)"
    by (simp add: message_def)
  have "\<not> falsy (getData (message 7 (JStr ''{action'')))"
    "source (message 7 (JStr ''{action'')) = contentWindow exampleIframe"
    by (simp_all add: getData_def message_def exampleIframe_def)
  with defensive_checks [OF h1, of exampleLaidOut] defensive_checks [OF h2, of exampleLaidOut]
    h1
  show ?thesis by simp
qed

text \<open>
  Claim C8. After \<^verbatim>\<open>layoutCallback\<close> has returned, a listener for \<^verbatim>\<open>embed-size\<close> is
  registered on the iframe it attached, and an \<^verbatim>\<open>embed-size\<close> message from that
  iframe's window is passed to the listener, which calls \<^verbatim>\<open>forceChangeHeight\<close> with the
  \<^verbatim>\<open>height\<close> field of the message's data.
\<close>

theorem embed_size_resizes:
  assumes "layoutCallback host st = Inr st'"
    and "iframe_p st' = Some ifr"
    and "contentWindow ifr = Some w"
  shows "ListenFor ifr ''embed-size'' True \<in> set (hostCalls st')
         \<and> receiveIframeMessage st' w ''embed-size'' (JObj ps) =
             Inr (forceChangeHeight st'
                    (case map_of ps ''height'' of None \<Rightarrow> JUndefined | Some v \<Rightarrow> v))
         \<and> embedSizeListener st' (JObj ps) =
             Inr (forceChangeHeight st'
                    (case map_of ps ''height'' of None \<Rightarrow> JUndefined | Some v \<Rightarrow> v))
         \<and> hostCalls (forceChangeHeight st' h) = hostCalls st' @ [ForceChangeHeight h]"
proof -
  from layoutCallback_result [OF assms(1)] assms(2)
  have reg: "ListenFor ifr ''embed-size'' True \<in> set (hostCalls st')"
    by auto
  then have "list_ex (\<lambda>c. case c of
                 ListenFor i t is3p \<Rightarrow> contentWindow i = Some w \<and> t = ''embed-size''
               | _ \<Rightarrow> False) (hostCalls st')"
    unfolding list_ex_iff using assms(3) by (intro bexI [of _ "ListenFor ifr ''embed-size'' True"]) simp_all
  then have "receiveIframeMessage st' w ''embed-size'' (JObj ps) =
      embedSizeListener st' (JObj ps)"
    by (simp add: receiveIframeMessage_def)
  moreover have "embedSizeListener st' (JObj ps) =
             Inr (forceChangeHeight st'
                    (case map_of ps ''height'' of None \<Rightarrow> JUndefined | Some v \<Rightarrow> v))"
    by (simp add: embedSizeListener_def)
  moreover have "hostCalls (forceChangeHeight st' h) = hostCalls st' @ [ForceChangeHeight h]"
    by (simp add: forceChangeHeight_def call_def)
  ultimately show ?thesis using reg by simp
qed

theorem embed_size_resizes_witness:
  "layoutCallback exampleHost (constructor exampleHost (exampleElement [])) =
     Inr exampleLaidOut
   \<and> iframe_p exampleLaidOut = Some exampleIframe
   \<and> contentWindow exampleIframe = Some 7
   \<and> receiveIframeMessage exampleLaidOut 7 ''embed-size''
         (JObj [(''type'', JStr ''embed-size''), (''height'', JNum (Finite 320))]) =
       Inr (forceChangeHeight exampleLaidOut (JNum (Finite 320)))
   \<and> hostCalls (forceChangeHeight exampleLaidOut (JNum (Finite 320))) =
       hostCalls exampleLaidOut @ [ForceChangeHeight (JNum (Finite 320))]"
proof -
  have h: "layoutCallback exampleHost (constructor exampleHost (exampleElement [])) =
     Inr exampleLaidOut"
    "iframe_p exampleLaidOut = Some exampleIframe"
    "contentWindow exampleIframe = Some 7"
    by (simp_all add: exampleLaidOut_eq exampleIframe_def)
  from embed_size_resizes [OF h,
      of "[(''type'', JStr ''embed-size''), (''height'', JNum (Finite 320))]"
         "JNum (Finite 320)"] h
  show ?thesis by simp
qed

text \<open>
  Claim C10. While \<^verbatim>\<open>iframe_\<close> is not null, a message event whose source is not the
  iframe's \<^verbatim>\<open>contentWindow\<close> leaves the component as it is, whatever its data; so two
  runs of the listener over the same events, one of them with such an event more at any
  place, end in the same component: the same recorded calls of \<^verbatim>\<open>toggleLoading\<close> and
  the same \<^verbatim>\<open>toggleLoadingCounter_\<close>.
\<close>

theorem foreign_messages_ignored:
  assumes "iframe_p st = Some ifr" and "source event \<noteq> contentWindow ifr"
  shows "handleFacebookMessages_p host st event = Inr st
         \<and> dispatch host st (before @ event # after) = dispatch host st (before @ after)"
proof -
  let ?st = "dispatch host st before"
  have "iframe_p ?st = Some ifr"
    using assms(1) by (simp add: iframe_p_dispatch)
  then have "handleFacebookMessages_p host ?st event = Inr ?st"
    using assms(2) by (rule handle_foreign_source)
  then have "deliver host ?st event = ?st"
    by (simp add: deliver_def)
  then have "dispatch host st (before @ event # after) = dispatch host st (before @ after)"
    by (simp add: dispatch_append)
  with handle_foreign_source [OF assms] show ?thesis by simp
qed

theorem foreign_messages_ignored_witness:
  "iframe_p exampleLaidOut = Some exampleIframe
   \<and> source (message 9 (JObj [(''action'', JStr ''ready'')])) \<noteq> contentWindow exampleIframe
   \<and> handleFacebookMessages_p exampleHost exampleLaidOut
         (message 9 (JObj [(''action'', JStr ''ready'')])) = Inr exampleLaidOut
   \<and> dispatch exampleHost exampleLaidOut
         [message 9 (JObj [(''action'', JStr ''ready'')]), message 7 (JStr ''hello'')] =
       dispatch exampleHost exampleLaidOut [message 7 (JStr ''hello'')]"
proof -
  have h: "iframe_p exampleLaidOut = Some exampleIframe"
    "source (message 9 (JObj [(''action'', JStr ''ready'')])) \<noteq> contentWindow exampleIframe"
    by (simp_all add: exampleLaidOut_eq message_def exampleIframe_def)
  from foreign_messages_ignored [OF h, of exampleHost "[]" "[message 7 (JStr ''hello'')]"] h
  show ?thesis by simp
qed

end
